theory Spec2Isabelle
  imports Main "HOL-Library.Word"
begin

section \<open>Constants and observable events\<close>

text \<open>
  The two macros of \<^verbatim>\<open>disk-watchdog.c\<close>. \<^verbatim>\<open>BUFFER_SIZE\<close> is used in \<^verbatim>\<open>off_t\<close> and
  \<^verbatim>\<open>ssize_t\<close> arithmetic, \<^verbatim>\<open>DEFAULT_INTERVAL\<close> initialises the 32-bit \<^verbatim>\<open>int interval_us\<close>.
\<close>

definition BUFFER_SIZE :: int where
  "BUFFER_SIZE = 512"

definition DEFAULT_INTERVAL :: "32 word" where
  "DEFAULT_INTERVAL = 10000"

text \<open>
  What the program does to the outside world, in the order it does it. A system call
  carries the value it returned. Diagnostic text written to stdout and stderr is not
  recorded, with the exception of the usage text.
\<close>

datatype event =
    Posix_memalign int
  | Memset
  | Open_direct int
  | Lseek_end int
  | Lseek_set int
  | Read int
  | Close int
  | Free
  | Print_usage
  | Sd_notify string
  | Usleep "32 word"

section \<open>The disk read probe\<close>

text \<open>
  The operating system as one call of \<^verbatim>\<open>test_read\<close> sees it: the value each library or
  system call returns. \<^verbatim>\<open>read_ret k\<close> is what the \<open>k\<close>-th call of \<^verbatim>\<open>read\<close> (counted from 0)
  returns. \<^verbatim>\<open>off_t\<close> and \<^verbatim>\<open>ssize_t\<close> values are integers; the arithmetic of the probe stays
  between 0 and the file size, so it cannot overflow.
\<close>

record probe_env =
  posix_memalign_ret :: int
  open_ret :: int
  lseek_end_ret :: int
  lseek_set_ret :: int
  read_ret :: "nat \<Rightarrow> int"
  close_ret :: int

text \<open>
  \<^verbatim>\<open>off_t aligned_size = (file_size / BUFFER_SIZE) * BUFFER_SIZE;\<close>
  The line is reached with \<^verbatim>\<open>file_size >= 0\<close> only, where C's truncating division and
  \<open>div\<close> agree.
\<close>

definition aligned_size :: "int \<Rightarrow> int" where
  "aligned_size file_size = (file_size div BUFFER_SIZE) * BUFFER_SIZE"

text \<open>
  The \<^verbatim>\<open>while (bytes_read < aligned_size)\<close> loop. The result is the code of the
  \<^verbatim>\<open>return\<close> statement that left the loop early (\<open>None\<close> when the loop condition
  became false), the final \<^verbatim>\<open>bytes_read\<close> and the number of \<^verbatim>\<open>read\<close> calls made so far.
\<close>

function read_loop :: "(nat \<Rightarrow> int) \<Rightarrow> int \<Rightarrow> int \<Rightarrow> nat \<Rightarrow> int option \<times> int \<times> nat" where
  "read_loop rd asize bytes_read k =
     (if bytes_read < asize then
        (if rd k < 0 then (Some 4, bytes_read, Suc k)
         else if rd k = 0 then (Some 5, bytes_read, Suc k)
         else if rd k \<noteq> BUFFER_SIZE then (Some 6, bytes_read, Suc k)
         else read_loop rd asize (bytes_read + rd k) (Suc k))
      else (None, bytes_read, k))"
  by pat_completeness auto
termination
  by (relation "measure (\<lambda>(rd, asize, bytes_read, k). nat (asize - bytes_read))")
     (auto simp: BUFFER_SIZE_def)

declare read_loop.simps [simp del]

record probe_result =
  code :: int
  bytes_read :: int
  events :: "event list"

text \<open>The events of the \<open>k\<close> calls of \<^verbatim>\<open>read\<close> that the loop made.\<close>

definition read_events :: "(nat \<Rightarrow> int) \<Rightarrow> nat \<Rightarrow> event list" where
  "read_events rd k = map (\<lambda>i. Read (rd i)) [0..<k]"

text \<open>
  \<^verbatim>\<open>int test_read(const char *filename)\<close>. The value of the second \<^verbatim>\<open>lseek\<close>
  (\<^verbatim>\<open>lseek(fd, 0, SEEK_SET)\<close>) is discarded by the source, and the value of \<^verbatim>\<open>close\<close> is
  looked at on the path after the loop only.
\<close>

definition test_read :: "probe_env \<Rightarrow> probe_result" where
  "test_read e =
     (if posix_memalign_ret e \<noteq> 0 then
        \<lparr>code = 1, bytes_read = 0, events = [Posix_memalign (posix_memalign_ret e)]\<rparr>
      else if open_ret e < 0 then
        \<lparr>code = 2, bytes_read = 0,
         events = [Posix_memalign 0, Memset, Open_direct (open_ret e), Free]\<rparr>
      else if lseek_end_ret e < 0 then
        \<lparr>code = 3, bytes_read = 0,
         events = [Posix_memalign 0, Memset, Open_direct (open_ret e),
                   Lseek_end (lseek_end_ret e), Close (close_ret e), Free]\<rparr>
      else
        (case read_loop (read_ret e) (aligned_size (lseek_end_ret e)) 0 0 of
           (r, n, k) \<Rightarrow>
             (let evs = [Posix_memalign 0, Memset, Open_direct (open_ret e),
                         Lseek_end (lseek_end_ret e), Lseek_set (lseek_set_ret e)]
                        @ read_events (read_ret e) k
              in case r of
                   Some c \<Rightarrow> \<lparr>code = c, bytes_read = n, events = evs @ [Close (close_ret e), Free]\<rparr>
                 | None \<Rightarrow>
                     (if close_ret e < 0 then
                        \<lparr>code = 7, bytes_read = n, events = evs @ [Close (close_ret e), Free]\<rparr>
                      else
                        \<lparr>code = 0, bytes_read = n, events = evs @ [Close (close_ret e), Free]\<rparr>))))"

text \<open>
  Resource tracking over a trace: the pair says whether the buffer is allocated and
  whether the descriptor is open. A step is \<open>None\<close> when the event misuses a resource
  (a second allocation while one is live, use of a buffer or descriptor that is not
  there, a double free or a double close). \<^verbatim>\<open>close\<close> releases the descriptor whatever
  it returns.
\<close>

fun track :: "event \<Rightarrow> bool \<times> bool \<Rightarrow> (bool \<times> bool) option" where
  "track (Posix_memalign r) (b, f) = (if b then None else Some (r = 0, f))"
| "track Memset (b, f) = (if b then Some (b, f) else None)"
| "track (Open_direct r) (b, f) = (if f then None else Some (b, 0 \<le> r))"
| "track (Lseek_end r) (b, f) = (if f then Some (b, f) else None)"
| "track (Lseek_set r) (b, f) = (if f then Some (b, f) else None)"
| "track (Read r) (b, f) = (if b \<and> f then Some (b, f) else None)"
| "track (Close r) (b, f) = (if f then Some (b, False) else None)"
| "track Free (b, f) = (if b then Some (False, f) else None)"
| "track ev (b, f) = Some (b, f)"

fun track_all :: "event list \<Rightarrow> bool \<times> bool \<Rightarrow> (bool \<times> bool) option" where
  "track_all [] s = Some s"
| "track_all (ev # evs) s = (case track ev s of None \<Rightarrow> None | Some s' \<Rightarrow> track_all evs s')"

text \<open>Nothing is live at the end, and nothing was misused on the way.\<close>

definition released :: "event list \<Rightarrow> bool" where
  "released evs = (track_all evs (False, False) = Some (False, False))"

text \<open>How often an event of a kind occurs in a trace.\<close>

fun is_read :: "event \<Rightarrow> bool" where
  "is_read (Read r) = True"
| "is_read ev = False"

fun is_free :: "event \<Rightarrow> bool" where
  "is_free Free = True"
| "is_free ev = False"

fun is_close :: "event \<Rightarrow> bool" where
  "is_close (Close r) = True"
| "is_close ev = False"

section \<open>Command line\<close>

text \<open>
  The C library's \<^verbatim>\<open>atoi\<close>, which the source calls on the argument of \<^verbatim>\<open>-i\<close>: white space
  is skipped, an optional sign is read, then decimal digits as long as there are any;
  whatever follows is ignored, and a string without digits gives 0. glibc computes
  \<^verbatim>\<open>(int) strtol(nptr, NULL, 10)\<close>: \<^verbatim>\<open>strtol\<close> saturates at the bounds of a 64-bit
  \<^verbatim>\<open>long\<close> and the conversion to \<^verbatim>\<open>int\<close> keeps the low 32 bits.
\<close>

definition isspace :: "char \<Rightarrow> bool" where
  "isspace c = (of_char c \<in> {9 :: nat, 10, 11, 12, 13, 32})"

definition isdigit :: "char \<Rightarrow> bool" where
  "isdigit c = (48 \<le> (of_char c :: nat) \<and> (of_char c :: nat) \<le> 57)"

fun digits_val :: "int \<Rightarrow> string \<Rightarrow> int" where
  "digits_val acc [] = acc"
| "digits_val acc (c # cs) =
     (if isdigit c then digits_val (acc * 10 + (of_char c - 48)) cs else acc)"

definition strtol_val :: "string \<Rightarrow> int" where
  "strtol_val str =
     (case dropWhile isspace str of
        [] \<Rightarrow> 0
      | c # cs \<Rightarrow>
          if c = CHR ''-'' then - digits_val 0 cs
          else if c = CHR ''+'' then digits_val 0 cs
          else digits_val 0 (c # cs))"

definition strtol :: "string \<Rightarrow> int" where
  "strtol str = max (- (2 ^ 63)) (min (2 ^ 63 - 1) (strtol_val str))"

definition atoi :: "string \<Rightarrow> 32 word" where
  "atoi str = word_of_int (strtol str)"

text \<open>
  The option table of \<^verbatim>\<open>parse_args\<close>: the short options \<^verbatim>\<open>"f:i:hvd"\<close> and the
  \<^verbatim>\<open>long_options\<close> array (name, \<^verbatim>\<open>required_argument\<close> or not, returned character).
\<close>

definition optstring :: string where
  "optstring = ''f:i:hvd''"

definition long_options :: "(string \<times> bool \<times> char) list" where
  "long_options =
     [(''file'', True, CHR ''f''),
      (''interval'', True, CHR ''i''),
      (''help'', False, CHR ''h''),
      (''verbose'', False, CHR ''v''),
      (''debug'', False, CHR ''d'')]"

text \<open>
  The C library's \<^verbatim>\<open>getopt_long\<close> (glibc, \<^verbatim>\<open>POSIXLY_CORRECT\<close> unset) on this table, as the
  sequence of (returned character, \<^verbatim>\<open>optarg\<close>) pairs that successive calls give before
  \<open>-1\<close>. The first argument is the rest of a cluster of short options under scan, the
  second the elements of \<^verbatim>\<open>argv\<close> not looked at yet (\<^verbatim>\<open>argv[0]\<close> excluded).
  \<^item> A short option that takes an argument uses the rest of its cluster, or else the next
    element; a short option not in \<^verbatim>\<open>optstring\<close>, and a missing argument, give \<^verbatim>\<open>'?'\<close>.
  \<^item> A long option is matched exactly or as an abbreviation that fits one name only;
    its argument follows \<^verbatim>\<open>=\<close> or is the next element.
  \<^item> \<^verbatim>\<open>--\<close> ends the options; elements that are not options are skipped.
\<close>

fun lookup_short :: "string \<Rightarrow> char \<Rightarrow> bool option" where
  "lookup_short [] c = None"
| "lookup_short (x # xs) c =
     (if x = c \<and> c \<noteq> CHR '':'' \<and> c \<noteq> CHR '';'' then
        Some (case xs of [] \<Rightarrow> False | y # ys \<Rightarrow> y = CHR '':'')
      else lookup_short xs c)"

definition lookup_long :: "string \<Rightarrow> (string \<times> bool \<times> char) option" where
  "lookup_long name =
     (case filter (\<lambda>p. fst p = name) long_options of
        p # ps \<Rightarrow> Some p
      | [] \<Rightarrow>
          (case filter (\<lambda>p. take (length name) (fst p) = name) long_options of
             [p] \<Rightarrow> Some p
           | _ \<Rightarrow> None))"

fun getopt_long :: "string \<Rightarrow> string list \<Rightarrow> (char \<times> string) list" where
  "getopt_long (c # cs) args =
     (case lookup_short optstring c of
        None \<Rightarrow> (CHR ''?'', []) # getopt_long cs args
      | Some False \<Rightarrow> (c, []) # getopt_long cs args
      | Some True \<Rightarrow>
          (if cs \<noteq> [] then (c, cs) # getopt_long [] args
           else (case args of
                   [] \<Rightarrow> [(CHR ''?'', [])]
                 | a # rest \<Rightarrow> (c, a) # getopt_long [] rest)))"
| "getopt_long [] [] = []"
| "getopt_long [] (a # args) =
     (if a = ''--'' then []
      else if take 2 a = ''--'' then
        (case lookup_long (takeWhile (\<lambda>c. c \<noteq> CHR ''='') (drop 2 a)) of
           None \<Rightarrow> (CHR ''?'', []) # getopt_long [] args
         | Some (name, has_arg, val) \<Rightarrow>
             (if dropWhile (\<lambda>c. c \<noteq> CHR ''='') (drop 2 a) \<noteq> [] then
                (if has_arg then
                   (val, tl (dropWhile (\<lambda>c. c \<noteq> CHR ''='') (drop 2 a))) # getopt_long [] args
                 else (CHR ''?'', []) # getopt_long [] args)
              else if has_arg then
                (case args of
                   [] \<Rightarrow> [(CHR ''?'', [])]
                 | x # rest \<Rightarrow> (val, x) # getopt_long [] rest)
              else (val, []) # getopt_long [] args))
      else if take 1 a = ''-'' \<and> a \<noteq> ''-'' then getopt_long (tl a) args
      else getopt_long [] args)"

text \<open>
  The file-scope variables of the program, and the trace of events so far.
  \<^verbatim>\<open>interval_us\<close> is a 32-bit \<^verbatim>\<open>int\<close>: it is kept as a word and read with \<open>sint\<close>.
\<close>

record state =
  running :: int
  test_file :: "string option"
  interval_us :: "32 word"
  verbose_mode :: int
  debug_mode :: int
  out :: "event list"

definition initial_state :: state where
  "initial_state =
     \<lparr>running = 1, test_file = None, interval_us = DEFAULT_INTERVAL,
      verbose_mode = 0, debug_mode = 0, out = []\<rparr>"

definition emit :: "event \<Rightarrow> state \<Rightarrow> state" where
  "emit ev s = s\<lparr>out := out s @ [ev]\<rparr>"

text \<open>
  What the program cannot decide itself: whether \<^verbatim>\<open>strdup\<close> finds memory for a string,
  what \<^verbatim>\<open>sd_watchdog_enabled\<close> returns and stores in \<^verbatim>\<open>watchdog_usec\<close>, what \<^verbatim>\<open>stat\<close> says
  about a path (\<open>None\<close> when it fails), what the \<open>k\<close>-th probe meets, and whether SIGINT
  or SIGTERM has been delivered since the \<^verbatim>\<open>while (running)\<close> condition was last
  evaluated (for \<open>k = 0\<close>: since the handlers were installed).
\<close>

record stat_buf =
  s_isreg :: bool
  st_size :: int

record env =
  strdup_ok :: "string \<Rightarrow> bool"
  sd_watchdog_enabled_ret :: int
  sd_watchdog_usec :: "64 word"
  stat_ret :: "string \<Rightarrow> stat_buf option"
  probe_envs :: "nat \<Rightarrow> probe_env"
  signal_before :: "nat \<Rightarrow> bool"

text \<open>How \<^verbatim>\<open>parse_args\<close> hands control back: \<^verbatim>\<open>return r\<close>, or \<^verbatim>\<open>exit(c)\<close>.\<close>

datatype parse_result = Return int | Exit int

text \<open>
  The \<^verbatim>\<open>while ((opt = getopt_long(...)) != -1) switch (opt)\<close> loop over the values that
  \<^verbatim>\<open>getopt_long\<close> returns; \<open>None\<close> when the loop ends with \<open>-1\<close>. The product
  \<^verbatim>\<open>atoi(optarg) * 1000\<close> is an \<^verbatim>\<open>int\<close> product; where it overflows (undefined in C) the
  model wraps around.
\<close>

fun parse_opts :: "(string \<Rightarrow> bool) \<Rightarrow> (char \<times> string) list \<Rightarrow> state \<Rightarrow> parse_result option \<times> state" where
  "parse_opts sd [] s = (None, s)"
| "parse_opts sd ((opt, optarg) # rest) s =
     (if opt = CHR ''f'' then
        (if sd optarg then parse_opts sd rest (s\<lparr>test_file := Some optarg\<rparr>)
         else (Some (Return (- 1)), s\<lparr>test_file := None\<rparr>))
      else if opt = CHR ''i'' then
        (if sint (atoi optarg * 1000) \<le> 0 then
           (Some (Return (- 1)), s\<lparr>interval_us := atoi optarg * 1000\<rparr>)
         else parse_opts sd rest (s\<lparr>interval_us := atoi optarg * 1000\<rparr>))
      else if opt = CHR ''v'' then parse_opts sd rest (s\<lparr>verbose_mode := 1\<rparr>)
      else if opt = CHR ''d'' then parse_opts sd rest (s\<lparr>debug_mode := 1, verbose_mode := 1\<rparr>)
      else if opt = CHR ''h'' then (Some (Exit 0), emit Print_usage s)
      else (Some (Return (- 1)), emit Print_usage s))"

text \<open>
  \<^verbatim>\<open>static int parse_args(int argc, char *argv[])\<close>. The assignment
  \<^verbatim>\<open>interval_us = watchdog_usec / 2\<close> divides a \<^verbatim>\<open>uint64_t\<close> and stores the quotient in an
  \<^verbatim>\<open>int\<close>, which keeps its low 32 bits.
\<close>

definition parse_args :: "env \<Rightarrow> string list \<Rightarrow> state \<Rightarrow> parse_result \<times> state" where
  "parse_args en argv s =
     (case parse_opts (strdup_ok en) (getopt_long [] argv) s of
        (Some r, s1) \<Rightarrow> (r, s1)
      | (None, s1) \<Rightarrow>
          (if test_file s1 = None then (Return (- 1), emit Print_usage s1)
           else if debug_mode s1 = 0 then
             (if 0 < sd_watchdog_enabled_ret en then
                (Return 0, s1\<lparr>interval_us := ucast (sd_watchdog_usec en div 2)\<rparr>)
              else (Return 0, s1))
           else (Return 0, s1)))"

section \<open>Precondition check, monitor loop and main\<close>

text \<open>\<^verbatim>\<open>static int check_test_file(const char *filepath)\<close>\<close>

definition check_test_file :: "(string \<Rightarrow> stat_buf option) \<Rightarrow> string \<Rightarrow> int" where
  "check_test_file st filepath =
     (case st filepath of
        None \<Rightarrow> - 1
      | Some sb \<Rightarrow>
          if \<not> s_isreg sb then - 1
          else if st_size sb = 0 then - 1
          else 0)"

text \<open>\<^verbatim>\<open>static void signal_handler(int sig)\<close>\<close>

definition signal_handler :: "state \<Rightarrow> state" where
  "signal_handler s = s\<lparr>running := 0\<rparr>"

text \<open>
  The body of \<^verbatim>\<open>while (running)\<close>: one probe, the heartbeat, the sleep. The events of the
  probe are part of the trace. (The counter \<^verbatim>\<open>iteration\<close> only feeds verbose output and
  is left out.)
\<close>

definition loop_body :: "probe_env \<Rightarrow> state \<Rightarrow> state" where
  "loop_body pe s =
     (let read_result = code (test_read pe);
          s1 = s\<lparr>out := out s @ events (test_read pe)\<rparr>;
          s2 = (if read_result \<noteq> 0 then s1
                else if debug_mode s1 = 0 then emit (Sd_notify ''WATCHDOG=1'') s1
                else s1)
      in emit (Usleep (interval_us s2)) s2)"

text \<open>
  The loop, for at most \<open>fuel\<close> evaluations of its condition: the result says whether the
  loop has been left, and gives the state reached. \<open>k\<close> counts the iterations done.
\<close>

fun main_loop :: "env \<Rightarrow> nat \<Rightarrow> nat \<Rightarrow> state \<Rightarrow> bool \<times> state" where
  "main_loop en 0 k s = (False, s)"
| "main_loop en (Suc fuel) k s =
     (let s0 = (if signal_before en k then signal_handler s else s) in
      if running s0 \<noteq> 0 then main_loop en fuel (Suc k) (loop_body (probe_envs en k) s0)
      else (True, s0))"

text \<open>
  \<^verbatim>\<open>int main(int argc, char *argv[])\<close>: the exit status, \<open>None\<close> while the loop is still
  running after \<open>fuel\<close> evaluations of its condition, and the state reached.
  With \<^verbatim>\<open>test_file == NULL\<close> the call of \<^verbatim>\<open>stat\<close> would fail; \<^verbatim>\<open>parse_args\<close> never
  returns 0 in that case. The calls \<^verbatim>\<open>signal\<close> and \<^verbatim>\<open>free(test_file)\<close> leave no event.
\<close>

definition main :: "nat \<Rightarrow> env \<Rightarrow> string list \<Rightarrow> int option \<times> state" where
  "main fuel en argv =
     (case parse_args en argv initial_state of
        (Exit c, s) \<Rightarrow> (Some c, s)
      | (Return r, s) \<Rightarrow>
          if r < 0 then (Some 1, s)
          else if (case test_file s of None \<Rightarrow> - 1
                   | Some path \<Rightarrow> check_test_file (stat_ret en) path) < 0 then (Some 1, s)
          else
            (case main_loop en fuel 0
                    (if debug_mode s = 0 then emit (Sd_notify ''READY=1'') s else s) of
               (True, s') \<Rightarrow> (Some 0, s')
             | (False, s') \<Rightarrow> (None, s')))"

fun is_notify :: "event \<Rightarrow> bool" where
  "is_notify (Sd_notify m) = True"
| "is_notify ev = False"

section \<open>Example environments\<close>

text \<open>
  Concrete probe environments: a healthy one for a file of a given size, in which every
  call of \<^verbatim>\<open>read\<close> delivers a full block, and variations in which one call fails.
\<close>

definition full_blocks :: "nat \<Rightarrow> int" where
  "full_blocks k = 512"

definition at_eof :: "nat \<Rightarrow> int" where
  "at_eof k = 0"

definition healthy_probe :: "int \<Rightarrow> probe_env" where
  "healthy_probe S =
     \<lparr>posix_memalign_ret = 0, open_ret = 3, lseek_end_ret = S, lseek_set_ret = 0,
      read_ret = full_blocks, close_ret = 0\<rparr>"

definition close_fails_probe :: probe_env where
  "close_fails_probe = (healthy_probe 1000)\<lparr>close_ret := - 1\<rparr>"

definition alloc_fails_probe :: probe_env where
  "alloc_fails_probe = (healthy_probe 1000)\<lparr>posix_memalign_ret := 12\<rparr>"

definition reseek_fails_probe :: probe_env where
  "reseek_fails_probe = (healthy_probe 1024)\<lparr>lseek_set_ret := - 1, read_ret := at_eof\<rparr>"


text \<open>
  Concrete environments of the whole program: one without a supervisor watchdog, in which
  \<^verbatim>\<open>strdup\<close> succeeds, \<^verbatim>\<open>stat\<close> fails for \<^verbatim>\<open>/nonexistent\<close>, finds a directory at \<^verbatim>\<open>/dir\<close>, an
  empty file at \<^verbatim>\<open>/empty\<close> and a regular file of 1000 bytes elsewhere, every probe is healthy and a termination signal arrives after
  two iterations; and one in which the supervisor reports a watchdog timeout.
\<close>

definition plain_env :: env where
  "plain_env =
     \<lparr>strdup_ok = (\<lambda>p. True), sd_watchdog_enabled_ret = 0, sd_watchdog_usec = 0,
      stat_ret = (\<lambda>p. if p = ''/nonexistent'' then None
                        else if p = ''/dir'' then Some \<lparr>s_isreg = False, st_size = 4096\<rparr>
                        else if p = ''/empty'' then Some \<lparr>s_isreg = True, st_size = 0\<rparr>
                        else Some \<lparr>s_isreg = True, st_size = 1000\<rparr>),
      probe_envs = (\<lambda>k. healthy_probe 1000),
      signal_before = (\<lambda>k. 2 \<le> k)\<rparr>"

definition watchdog_env :: "64 word \<Rightarrow> env" where
  "watchdog_env T = plain_env\<lparr>sd_watchdog_enabled_ret := 1, sd_watchdog_usec := T\<rparr>"

text \<open>
  The environment above with a second probe whose \<^verbatim>\<open>close\<close> fails, and the termination
  signal after three iterations.
\<close>

definition flaky_env :: env where
  "flaky_env =
     plain_env\<lparr>probe_envs := (\<lambda>k. if k = 1 then close_fails_probe else healthy_probe 1000),
               signal_before := (\<lambda>k. 3 \<le> k)\<rparr>"

section \<open>Properties of the read loop\<close>

lemma read_loop_all_full:
  "\<forall>i. k \<le> i \<and> i < n \<longrightarrow> rd i = 512 \<Longrightarrow> k \<le> n \<Longrightarrow>
   read_loop rd (512 * int n) (512 * int k) k = (None, 512 * int n, n)"
proof (induction "n - k" arbitrary: k)
  case 0
  then show ?case by (subst read_loop.simps) simp
next
  case (Suc d)
  then have lt: "k < n" and rd: "rd k = 512" by auto
  have ih: "read_loop rd (512 * int n) (512 * int (Suc k)) (Suc k) = (None, 512 * int n, n)"
  proof (rule Suc.hyps(1))
    show "d = n - Suc k" using Suc.hyps(2) by simp
    show "\<forall>i. Suc k \<le> i \<and> i < n \<longrightarrow> rd i = 512" using Suc.prems(1) by simp
    show "Suc k \<le> n" using lt by simp
  qed
  have "read_loop rd (512 * int n) (512 * int k) k
          = read_loop rd (512 * int n) (512 * int k + rd k) (Suc k)"
    using lt rd by (subst read_loop.simps) (simp add: BUFFER_SIZE_def)
  also have "512 * int k + rd k = 512 * int (Suc k)"
    using rd by simp
  finally show ?case using ih by simp
qed

lemma read_loop_first_bad:
  "\<forall>i. k \<le> i \<and> i < j \<longrightarrow> rd i = 512 \<Longrightarrow> k \<le> j \<Longrightarrow> j < n \<Longrightarrow> rd j \<noteq> 512 \<Longrightarrow>
   read_loop rd (512 * int n) (512 * int k) k =
     (Some (if rd j < 0 then 4 else if rd j = 0 then 5 else 6), 512 * int j, Suc j)"
proof (induction "j - k" arbitrary: k)
  case 0
  then have "k = j" by simp
  with 0 show ?case by (subst read_loop.simps) (simp add: BUFFER_SIZE_def)
next
  case (Suc d)
  then have lt: "k < j" and rd: "rd k = 512" by auto
  have ih: "read_loop rd (512 * int n) (512 * int (Suc k)) (Suc k) =
     (Some (if rd j < 0 then 4 else if rd j = 0 then 5 else 6), 512 * int j, Suc j)"
  proof (rule Suc.hyps(1))
    show "d = j - Suc k" using Suc.hyps(2) by simp
    show "\<forall>i. Suc k \<le> i \<and> i < j \<longrightarrow> rd i = 512" using Suc.prems(1) by simp
    show "Suc k \<le> j" using lt by simp
    show "j < n" by (rule Suc.prems(3))
    show "rd j \<noteq> 512" by (rule Suc.prems(4))
  qed
  have "k < n" using lt Suc.prems(3) by simp
  then have "read_loop rd (512 * int n) (512 * int k) k
          = read_loop rd (512 * int n) (512 * int k + rd k) (Suc k)"
    using rd by (subst read_loop.simps) (simp add: BUFFER_SIZE_def)
  also have "512 * int k + rd k = 512 * int (Suc k)"
    using rd by simp
  finally show ?case using ih by simp
qed

lemma aligned_size_blocks: "0 \<le> S \<Longrightarrow> aligned_size S = 512 * int (nat (S div 512))"
  by (simp add: aligned_size_def BUFFER_SIZE_def)

lemma first_bad_exists:
  fixes rd :: "nat \<Rightarrow> int" and n :: nat
  assumes "\<not> (\<forall>i<n. rd i = 512)"
  shows "\<exists>j<n. (\<forall>i<j. rd i = 512) \<and> rd j \<noteq> 512"
proof -
  from assms obtain m where m: "m < n" "rd m \<noteq> 512" by auto
  define j where "j = (LEAST i. rd i \<noteq> 512)"
  have bad: "rd j \<noteq> 512"
    unfolding j_def using LeastI [of "\<lambda>i. rd i \<noteq> 512" m] m(2) by simp
  have le: "j \<le> m"
    unfolding j_def using Least_le [of "\<lambda>i. rd i \<noteq> 512" m] m(2) by simp
  have before: "\<forall>i<j. rd i = 512"
    unfolding j_def using not_less_Least [of _ "\<lambda>i. rd i \<noteq> 512"] by blast
  have "j < n" using le m(1) by simp
  with before bad show ?thesis by blast
qed

lemma loop_from_start_full:
  "0 \<le> S \<Longrightarrow> \<forall>i < nat (S div 512). rd i = 512 \<Longrightarrow>
   read_loop rd (aligned_size S) 0 0 = (None, aligned_size S, nat (S div 512))"
  using read_loop_all_full [of 0 "nat (S div 512)" rd]
  by (simp add: aligned_size_blocks)

lemma loop_from_start_bad:
  "0 \<le> S \<Longrightarrow> j < nat (S div 512) \<Longrightarrow> \<forall>i<j. rd i = 512 \<Longrightarrow> rd j \<noteq> 512 \<Longrightarrow>
   read_loop rd (aligned_size S) 0 0 =
     (Some (if rd j < 0 then 4 else if rd j = 0 then 5 else 6), 512 * int j, Suc j)"
  using read_loop_first_bad [of 0 j rd "nat (S div 512)"]
  by (simp add: aligned_size_blocks)

lemma test_read_all_full:
  assumes "posix_memalign_ret e = 0" "0 \<le> open_ret e" "0 \<le> lseek_end_ret e"
    and "\<forall>i < nat (lseek_end_ret e div 512). read_ret e i = 512"
  shows "test_read e =
     \<lparr>code = (if close_ret e < 0 then 7 else 0),
      bytes_read = aligned_size (lseek_end_ret e),
      events = [Posix_memalign 0, Memset, Open_direct (open_ret e),
                Lseek_end (lseek_end_ret e), Lseek_set (lseek_set_ret e)]
               @ read_events (read_ret e) (nat (lseek_end_ret e div 512))
               @ [Close (close_ret e), Free]\<rparr>"
  using assms loop_from_start_full [of "lseek_end_ret e" "read_ret e"]
  by (simp add: test_read_def)

lemma test_read_first_bad:
  assumes "posix_memalign_ret e = 0" "0 \<le> open_ret e" "0 \<le> lseek_end_ret e"
    and "j < nat (lseek_end_ret e div 512)" "\<forall>i<j. read_ret e i = 512" "read_ret e j \<noteq> 512"
  shows "test_read e =
     \<lparr>code = (if read_ret e j < 0 then 4 else if read_ret e j = 0 then 5 else 6),
      bytes_read = 512 * int j,
      events = [Posix_memalign 0, Memset, Open_direct (open_ret e),
                Lseek_end (lseek_end_ret e), Lseek_set (lseek_set_ret e)]
               @ read_events (read_ret e) (Suc j)
               @ [Close (close_ret e), Free]\<rparr>"
  using assms loop_from_start_bad [of "lseek_end_ret e" j "read_ret e"]
  by (simp add: test_read_def)

lemma filter_is_read_read_events: "filter is_read (read_events rd k) = read_events rd k"
  by (simp add: read_events_def filter_map comp_def)

lemma read_events_full:
  "\<forall>i<k. rd i = 512 \<Longrightarrow> read_events rd k = replicate k (Read 512)"
  by (induction k) (simp_all add: read_events_def replicate_append_same)

lemma track_all_append:
  "track_all (xs @ ys) s = (case track_all xs s of None \<Rightarrow> None | Some s' \<Rightarrow> track_all ys s')"
  by (induction xs arbitrary: s) (simp_all split: option.splits)

lemma track_all_read_events: "track_all (read_events rd k) (True, True) = Some (True, True)"
  by (induction k) (simp_all add: read_events_def track_all_append)

lemma filter_is_free_read_events: "filter is_free (read_events rd k) = []"
  by (simp add: read_events_def filter_map comp_def)

lemma filter_is_close_read_events: "filter is_close (read_events rd k) = []"
  by (simp add: read_events_def filter_map comp_def)

text \<open>
  Every code of the probe and the step it stands for: 1 allocation, 2 open, 3 the seek
  to the end, 4, 5 and 6 the first \<^verbatim>\<open>read\<close> of the loop that did not deliver a full block
  (negative, zero, short), 7 close, 0 when none of these failed. The value of the reseek
  does not occur: the code does not depend on it.
\<close>

lemma outcome_code_characterisation:
  "(let c = code (test_read e);
        n = nat (lseek_end_ret e div 512);
        rd = read_ret e;
        in_loop = (posix_memalign_ret e = 0 \<and> 0 \<le> open_ret e \<and> 0 \<le> lseek_end_ret e)
    in c \<in> {0, 1, 2, 3, 4, 5, 6, 7}
     \<and> (c = 0 \<longleftrightarrow> in_loop \<and> (\<forall>i<n. rd i = 512) \<and> 0 \<le> close_ret e)
     \<and> (c = 1 \<longleftrightarrow> posix_memalign_ret e \<noteq> 0)
     \<and> (c = 2 \<longleftrightarrow> posix_memalign_ret e = 0 \<and> open_ret e < 0)
     \<and> (c = 3 \<longleftrightarrow> posix_memalign_ret e = 0 \<and> 0 \<le> open_ret e \<and> lseek_end_ret e < 0)
     \<and> (c = 4 \<longleftrightarrow> in_loop \<and> (\<exists>k<n. (\<forall>i<k. rd i = 512) \<and> rd k < 0))
     \<and> (c = 5 \<longleftrightarrow> in_loop \<and> (\<exists>k<n. (\<forall>i<k. rd i = 512) \<and> rd k = 0))
     \<and> (c = 6 \<longleftrightarrow> in_loop \<and> (\<exists>k<n. (\<forall>i<k. rd i = 512) \<and> 0 < rd k \<and> rd k \<noteq> 512))
     \<and> (c = 7 \<longleftrightarrow> in_loop \<and> (\<forall>i<n. rd i = 512) \<and> close_ret e < 0))"
proof -
  consider (alloc) "posix_memalign_ret e \<noteq> 0"
    | (opn) "posix_memalign_ret e = 0" "open_ret e < 0"
    | (seek) "posix_memalign_ret e = 0" "0 \<le> open_ret e" "lseek_end_ret e < 0"
    | (full) "posix_memalign_ret e = 0" "0 \<le> open_ret e" "0 \<le> lseek_end_ret e"
        "\<forall>i < nat (lseek_end_ret e div 512). read_ret e i = 512"
    | (bad) "posix_memalign_ret e = 0" "0 \<le> open_ret e" "0 \<le> lseek_end_ret e"
        "\<not> (\<forall>i < nat (lseek_end_ret e div 512). read_ret e i = 512)"
    by (cases "posix_memalign_ret e = 0"; cases "0 \<le> open_ret e"; cases "0 \<le> lseek_end_ret e";
        cases "\<forall>i < nat (lseek_end_ret e div 512). read_ret e i = 512") simp_all
  then show ?thesis
  proof cases
    case alloc
    then show ?thesis by (simp add: test_read_def)
  next
    case opn
    then show ?thesis by (simp add: test_read_def)
  next
    case seek
    then show ?thesis by (simp add: test_read_def)
  next
    case full
    have c: "code (test_read e) = (if close_ret e < 0 then 7 else 0)"
      using test_read_all_full [OF full] by simp
    have no: "\<And>P. \<not> (\<exists>k < nat (lseek_end_ret e div 512). P k \<and> read_ret e k \<noteq> 512)"
      using full(4) by blast
    show ?thesis
      unfolding Let_def c using full no by auto
  next
    case bad
    from first_bad_exists [OF bad(4)] obtain j
      where j: "j < nat (lseek_end_ret e div 512)" "\<forall>i<j. read_ret e i = 512" "read_ret e j \<noteq> 512"
      by blast
    have any: "code (test_read e) = (if read_ret e k < 0 then 4 else if read_ret e k = 0 then 5 else 6)"
      if "k < nat (lseek_end_ret e div 512)" "\<forall>i<k. read_ret e i = 512" "read_ret e k \<noteq> 512" for k
      using test_read_first_bad [OF bad(1,2,3) that] by simp
    have c4: "code (test_read e) = 4 \<longleftrightarrow>
        (\<exists>k < nat (lseek_end_ret e div 512). (\<forall>i<k. read_ret e i = 512) \<and> read_ret e k < 0)"
    proof
      assume "code (test_read e) = 4"
      with any [OF j] have "read_ret e j < 0" by (simp split: if_splits)
      with j show "\<exists>k < nat (lseek_end_ret e div 512). (\<forall>i<k. read_ret e i = 512) \<and> read_ret e k < 0"
        by blast
    next
      assume "\<exists>k < nat (lseek_end_ret e div 512). (\<forall>i<k. read_ret e i = 512) \<and> read_ret e k < 0"
      then obtain k where "k < nat (lseek_end_ret e div 512)" "\<forall>i<k. read_ret e i = 512" "read_ret e k < 0"
        by blast
      then show "code (test_read e) = 4" using any [of k] by simp
    qed
    have c5: "code (test_read e) = 5 \<longleftrightarrow>
        (\<exists>k < nat (lseek_end_ret e div 512). (\<forall>i<k. read_ret e i = 512) \<and> read_ret e k = 0)"
    proof
      assume "code (test_read e) = 5"
      with any [OF j] have "read_ret e j = 0" by (simp split: if_splits)
      with j show "\<exists>k < nat (lseek_end_ret e div 512). (\<forall>i<k. read_ret e i = 512) \<and> read_ret e k = 0"
        by blast
    next
      assume "\<exists>k < nat (lseek_end_ret e div 512). (\<forall>i<k. read_ret e i = 512) \<and> read_ret e k = 0"
      then obtain k where "k < nat (lseek_end_ret e div 512)" "\<forall>i<k. read_ret e i = 512" "read_ret e k = 0"
        by blast
      then show "code (test_read e) = 5" using any [of k] by simp
    qed
    have c6: "code (test_read e) = 6 \<longleftrightarrow>
        (\<exists>k < nat (lseek_end_ret e div 512). (\<forall>i<k. read_ret e i = 512) \<and> 0 < read_ret e k \<and> read_ret e k \<noteq> 512)"
    proof
      assume "code (test_read e) = 6"
      with any [OF j] have "0 < read_ret e j" by (simp split: if_splits)
      with j show "\<exists>k < nat (lseek_end_ret e div 512). (\<forall>i<k. read_ret e i = 512) \<and> 0 < read_ret e k \<and> read_ret e k \<noteq> 512"
        by blast
    next
      assume "\<exists>k < nat (lseek_end_ret e div 512). (\<forall>i<k. read_ret e i = 512) \<and> 0 < read_ret e k \<and> read_ret e k \<noteq> 512"
      then obtain k where "k < nat (lseek_end_ret e div 512)" "\<forall>i<k. read_ret e i = 512"
          "0 < read_ret e k" "read_ret e k \<noteq> 512"
        by blast
      then show "code (test_read e) = 6" using any [of k] by simp
    qed
    have rng: "code (test_read e) \<in> {4, 5, 6}" using any [OF j] by simp
    have others: "code (test_read e) \<noteq> 0" "code (test_read e) \<noteq> 1" "code (test_read e) \<noteq> 2"
      "code (test_read e) \<noteq> 3" "code (test_read e) \<noteq> 7"
      using rng by auto
    show ?thesis
      unfolding Let_def using bad(1,2,3,4) c4 c5 c6 rng others by simp
  qed
qed

lemma code_ignores_reseek:
  "code (test_read (e\<lparr>lseek_set_ret := x\<rparr>)) = code (test_read e)"
  by (simp add: test_read_def Let_def split: prod.splits option.splits)

section \<open>The probe: claims\<close>

text \<open>
  Claim C4. For a target file smaller than the 512-byte buffer, the aligned size is 0,
  the probe issues no \<^verbatim>\<open>read\<close> call and returns 0 (success), provided that allocation,
  open, the size-determining seek and close succeed.
\<close>

theorem C4_small_file_no_read:
  assumes "posix_memalign_ret e = 0" and "0 \<le> open_ret e"
    and "0 \<le> lseek_end_ret e" and "lseek_end_ret e < BUFFER_SIZE"
    and "0 \<le> close_ret e"
  shows "aligned_size (lseek_end_ret e) = 0
       \<and> filter is_read (events (test_read e)) = []
       \<and> code (test_read e) = 0"
proof -
  have n0: "nat (lseek_end_ret e div 512) = 0"
    using assms(3,4) by (simp add: BUFFER_SIZE_def)
  have a0: "aligned_size (lseek_end_ret e) = 0"
    using assms(3) n0 by (simp add: aligned_size_blocks)
  have "\<forall>i < nat (lseek_end_ret e div 512). read_ret e i = 512"
    using n0 by simp
  from test_read_all_full [OF assms(1,2,3) this] assms(5) n0 a0
  show ?thesis by (simp add: read_events_def)
qed

theorem C4_small_file_no_read_witness:
  "posix_memalign_ret (healthy_probe 100) = 0 \<and> 0 \<le> open_ret (healthy_probe 100)
   \<and> 0 \<le> lseek_end_ret (healthy_probe 100) \<and> lseek_end_ret (healthy_probe 100) < BUFFER_SIZE
   \<and> 0 \<le> close_ret (healthy_probe 100)
   \<and> aligned_size (lseek_end_ret (healthy_probe 100)) = 0
   \<and> filter is_read (events (test_read (healthy_probe 100))) = []
   \<and> code (test_read (healthy_probe 100)) = 0"
  using C4_small_file_no_read [of "healthy_probe 100"]
  by (simp add: healthy_probe_def BUFFER_SIZE_def)

text \<open>
  Claim C3, as amended. For a file whose size \<open>S\<close> is not a multiple of 512, a probe in
  which allocation, open, the size-determining seek and close succeed and every
  \<^verbatim>\<open>read\<close> call that is made delivers a full block reads \<open>floor(S/512) * 512\<close> bytes in
  \<open>floor(S/512)\<close> calls, leaves the trailing partial block unread and returns 0.
\<close>

theorem C3_partial_block_skipped:
  assumes "posix_memalign_ret e = 0" and "0 \<le> open_ret e"
    and "lseek_end_ret e = S" and "0 \<le> S" and "S mod BUFFER_SIZE \<noteq> 0"
    and "\<forall>k < nat (S div BUFFER_SIZE). read_ret e k = BUFFER_SIZE"
    and "0 \<le> close_ret e"
  shows "bytes_read (test_read e) = (S div BUFFER_SIZE) * BUFFER_SIZE
       \<and> filter is_read (events (test_read e)) = replicate (nat (S div BUFFER_SIZE)) (Read BUFFER_SIZE)
       \<and> bytes_read (test_read e) < S
       \<and> code (test_read e) = 0"
proof -
  have full: "\<forall>i < nat (lseek_end_ret e div 512). read_ret e i = 512"
    using assms(3,6) by (simp add: BUFFER_SIZE_def)
  have seek: "0 \<le> lseek_end_ret e" using assms(3,4) by simp
  note tr = test_read_all_full [OF assms(1,2) seek full]
  have b: "bytes_read (test_read e) = (S div BUFFER_SIZE) * BUFFER_SIZE"
    using tr assms(3) by (simp add: aligned_size_def)
  have r: "filter is_read (events (test_read e)) = replicate (nat (S div BUFFER_SIZE)) (Read BUFFER_SIZE)"
    using tr full assms(3)
    by (simp add: filter_is_read_read_events read_events_full BUFFER_SIZE_def)
  have "S div 512 * 512 + S mod 512 = S" by simp
  moreover have "0 < S mod 512"
    using assms(5) pos_mod_sign [of 512 S] by (simp add: BUFFER_SIZE_def)
  ultimately have lt: "S div 512 * 512 < S" by linarith
  have c: "code (test_read e) = 0" using tr assms(7) by simp
  from b r lt c show ?thesis by (simp add: BUFFER_SIZE_def)
qed

theorem C3_partial_block_skipped_witness:
  "posix_memalign_ret (healthy_probe 1000) = 0 \<and> 0 \<le> open_ret (healthy_probe 1000)
   \<and> lseek_end_ret (healthy_probe 1000) = 1000 \<and> (1000::int) mod BUFFER_SIZE \<noteq> 0
   \<and> 0 \<le> close_ret (healthy_probe 1000)
   \<and> bytes_read (test_read (healthy_probe 1000)) = 512
   \<and> filter is_read (events (test_read (healthy_probe 1000))) = [Read 512]
   \<and> code (test_read (healthy_probe 1000)) = 0"
  using C3_partial_block_skipped [of "healthy_probe 1000" 1000]
  by (simp add: healthy_probe_def full_blocks_def BUFFER_SIZE_def)

text \<open>
  Claim C3 as stated says nothing about \<^verbatim>\<open>close\<close> and allocation. With a file of 1000
  bytes and full blocks from every \<^verbatim>\<open>read\<close>, a failing \<^verbatim>\<open>close\<close> makes the probe return 7
  after the one block was read, and a failing allocation makes it return 1 with no
  byte read.
\<close>

theorem C3_counterexample:
  "lseek_end_ret close_fails_probe = 1000 \<and> read_ret close_fails_probe = full_blocks
   \<and> filter is_read (events (test_read close_fails_probe)) = [Read 512]
   \<and> code (test_read close_fails_probe) = 7
   \<and> lseek_end_ret alloc_fails_probe = 1000 \<and> read_ret alloc_fails_probe = full_blocks
   \<and> filter is_read (events (test_read alloc_fails_probe)) = []
   \<and> code (test_read alloc_fails_probe) = 1"
  by (simp add: close_fails_probe_def alloc_fails_probe_def healthy_probe_def full_blocks_def
        test_read_def aligned_size_def BUFFER_SIZE_def read_loop.simps read_events_def)

text \<open>
  Claim C5 at the input where it fails: the reseek \<^verbatim>\<open>lseek(fd, 0, SEEK_SET)\<close> returns
  \<open>-1\<close>. The source discards that value. With a file of 1024 bytes whose offset stays at
  the end, the first \<^verbatim>\<open>read\<close> returns 0 and the probe returns 5 (unexpected end of
  file), not 3; with a file of 100 bytes the probe returns 0.
\<close>

theorem C5_reseek_failure_unnoticed:
  "lseek_set_ret reseek_fails_probe = - 1
   \<and> code (test_read reseek_fails_probe) = 5
   \<and> code (test_read ((healthy_probe 100)\<lparr>lseek_set_ret := - 1\<rparr>)) = 0"
  by (simp add: reseek_fails_probe_def healthy_probe_def at_eof_def
        test_read_def aligned_size_def BUFFER_SIZE_def read_loop.simps read_events_def)

text \<open>
  Claim C8. On every path through the probe the buffer, once allocated, is freed exactly
  once, and the descriptor, once opened, is closed exactly once; nothing is used after
  its release and nothing is live when the probe returns.
\<close>

theorem C8_no_leak:
  "released (events (test_read e))
   \<and> length (filter is_free (events (test_read e))) = (if posix_memalign_ret e = 0 then 1 else 0)
   \<and> length (filter is_close (events (test_read e)))
       = (if posix_memalign_ret e = 0 \<and> 0 \<le> open_ret e then 1 else 0)"
  by (simp add: test_read_def released_def track_all_append track_all_read_events
        filter_is_free_read_events filter_is_close_read_events Let_def
        split: prod.splits option.splits)

text \<open>
  Claim C10 at the input where it fails. The codes are within 0, ..., 7 and stand for the
  steps the claim lists, but 0 does not mean that every step succeeded: for a file of 100
  bytes whose reseek \<^verbatim>\<open>lseek(fd, 0, SEEK_SET)\<close> returns \<open>-1\<close>, the probe returns 0.
\<close>

theorem C10_success_with_failed_reseek:
  "posix_memalign_ret ((healthy_probe 100)\<lparr>lseek_set_ret := - 1\<rparr>) = 0
   \<and> open_ret ((healthy_probe 100)\<lparr>lseek_set_ret := - 1\<rparr>) = 3
   \<and> lseek_end_ret ((healthy_probe 100)\<lparr>lseek_set_ret := - 1\<rparr>) = 100
   \<and> lseek_set_ret ((healthy_probe 100)\<lparr>lseek_set_ret := - 1\<rparr>) = - 1
   \<and> events (test_read ((healthy_probe 100)\<lparr>lseek_set_ret := - 1\<rparr>))
       = [Posix_memalign 0, Memset, Open_direct 3, Lseek_end 100, Lseek_set (- 1), Close 0, Free]
   \<and> code (test_read ((healthy_probe 100)\<lparr>lseek_set_ret := - 1\<rparr>)) = 0"
  by (simp add: healthy_probe_def test_read_def aligned_size_def BUFFER_SIZE_def
        read_loop.simps read_events_def)

section \<open>Properties of the command line parser\<close>

lemma parse_opts_append:
  "parse_opts sd pre s = (None, s1) \<Longrightarrow> parse_opts sd (pre @ xs) s = parse_opts sd xs s1"
proof (induction pre arbitrary: s)
  case Nil
  then show ?case by simp
next
  case (Cons x pre)
  obtain opt optarg where x: "x = (opt, optarg)" by (cases x)
  from Cons.prems show ?case
    unfolding x by (auto simp: Cons.IH split: if_splits)
qed

lemma parse_opts_usage_only:
  "parse_opts sd xs s = (r, s') \<Longrightarrow> list_all (\<lambda>ev. ev = Print_usage) (out s) \<Longrightarrow>
   list_all (\<lambda>ev. ev = Print_usage) (out s')"
proof (induction xs arbitrary: s)
  case Nil
  then show ?case by simp
next
  case (Cons x xs)
  obtain opt optarg where x: "x = (opt, optarg)" by (cases x)
  from Cons.prems show ?case
    unfolding x by (auto simp: emit_def dest: Cons.IH split: if_splits)
qed

lemma parse_args_usage_only:
  "parse_args en argv initial_state = (r, s) \<Longrightarrow> list_all (\<lambda>ev. ev = Print_usage) (out s)"
proof -
  assume pa: "parse_args en argv initial_state = (r, s)"
  obtain r1 s1 where po: "parse_opts (strdup_ok en) (getopt_long [] argv) initial_state = (r1, s1)"
    by (cases "parse_opts (strdup_ok en) (getopt_long [] argv) initial_state")
  have "list_all (\<lambda>ev. ev = Print_usage) (out s1)"
    using parse_opts_usage_only [OF po] by (simp add: initial_state_def)
  with pa po show ?thesis
    by (auto simp: parse_args_def emit_def split: option.splits if_splits)
qed

lemma parse_opts_result:
  "parse_opts sd xs s = (Some r, s') \<Longrightarrow> r = Return (- 1) \<or> r = Exit 0"
proof (induction xs arbitrary: s)
  case Nil
  then show ?case by simp
next
  case (Cons x xs)
  obtain opt optarg where x: "x = (opt, optarg)" by (cases x)
  from Cons.prems show ?case
    unfolding x by (auto dest: Cons.IH split: if_splits)
qed

lemma parse_opts_append_stop:
  "parse_opts sd pre s = (Some r, s1) \<Longrightarrow> parse_opts sd (pre @ xs) s = (Some r, s1)"
proof (induction pre arbitrary: s)
  case Nil
  then show ?case by simp
next
  case (Cons x pre)
  obtain opt optarg where x: "x = (opt, optarg)" by (cases x)
  from Cons.prems show ?case
    unfolding x by (auto simp: Cons.IH split: if_splits)
qed

lemma parse_opts_None:
  "parse_opts sd xs s = (None, s') \<Longrightarrow> out s' = out s \<and> running s' = running s"
proof (induction xs arbitrary: s)
  case Nil
  then show ?case by simp
next
  case (Cons x xs)
  obtain opt optarg where x: "x = (opt, optarg)" by (cases x)
  from Cons.prems show ?case
    unfolding x by (auto dest: Cons.IH split: if_splits)
qed

lemma parse_args_Return_0:
  assumes "parse_args en argv initial_state = (Return 0, s)"
  shows "out s = [] \<and> running s = 1"
proof -
  obtain r1 s1 where po: "parse_opts (strdup_ok en) (getopt_long [] argv) initial_state = (r1, s1)"
    by (cases "parse_opts (strdup_ok en) (getopt_long [] argv) initial_state")
  show ?thesis
  proof (cases r1)
    case None
    with po have "out s1 = [] \<and> running s1 = 1"
      using parse_opts_None [of "strdup_ok en" "getopt_long [] argv" initial_state s1]
      by (simp add: initial_state_def)
    with assms po None show ?thesis
      by (auto simp: parse_args_def split: if_splits)
  next
    case (Some r)
    with po parse_opts_result [of "strdup_ok en" "getopt_long [] argv" initial_state r s1] assms
    show ?thesis by (auto simp: parse_args_def)
  qed
qed

lemma sint_interval_product:
  assumes "- 2147483648 \<le> strtol_val arg * 1000" and "strtol_val arg * 1000 \<le> 2147483647"
  shows "sint (atoi arg * 1000) = strtol_val arg * 1000"
proof -
  have "strtol arg = strtol_val arg"
    using assms by (simp add: strtol_def)
  then have e: "atoi arg * 1000 = (word_of_int (strtol_val arg * 1000) :: 32 word)"
    by (simp add: atoi_def)
  have "sint (word_of_int (strtol_val arg * 1000) :: 32 word)
      = signed_take_bit (LENGTH(32) - 1) (strtol_val arg * 1000)"
    by (rule sint_sbintrunc')
  also have "\<dots> = signed_take_bit 31 (strtol_val arg * 1000)"
    by simp
  also have "\<dots> = strtol_val arg * 1000"
    using assms by (intro signed_take_bit_int_eq_self) simp_all
  finally show ?thesis
    unfolding e .
qed

lemma watchdog_interval_in_range:
  assumes "parse_args en argv initial_state = (Return 0, s)"
    and "debug_mode s = 0" and "0 < sd_watchdog_enabled_ret en"
    and "uint (sd_watchdog_usec en) div 2 < 2147483648"
  shows "sint (interval_us s) = uint (sd_watchdog_usec en) div 2"
proof -
  obtain r1 s1 where po: "parse_opts (strdup_ok en) (getopt_long [] argv) initial_state = (r1, s1)"
    by (cases "parse_opts (strdup_ok en) (getopt_long [] argv) initial_state")
  have i: "interval_us s = ucast (sd_watchdog_usec en div 2)"
    using assms(1,2,3) po parse_opts_result [of "strdup_ok en" "getopt_long [] argv" initial_state]
    by (auto simp: parse_args_def emit_def split: option.splits if_splits)
  have u: "uint (sd_watchdog_usec en div 2) = uint (sd_watchdog_usec en) div 2"
    by (simp add: uint_div)
  have "sint (ucast (sd_watchdog_usec en div 2) :: 32 word)
      = sint (word_of_int (uint (sd_watchdog_usec en div 2)) :: 32 word)"
    by (simp only: ucast_eq)
  also have "\<dots> = signed_take_bit (LENGTH(32) - 1) (uint (sd_watchdog_usec en div 2))"
    by (rule sint_sbintrunc')
  also have "\<dots> = signed_take_bit 31 (uint (sd_watchdog_usec en div 2))"
    by simp
  also have "\<dots> = uint (sd_watchdog_usec en div 2)"
  proof (rule signed_take_bit_int_eq_self)
    have "0 \<le> uint (sd_watchdog_usec en div 2)" by simp
    moreover have "- (2 ^ 31) \<le> (0::int)" by simp
    ultimately show "- (2 ^ 31) \<le> uint (sd_watchdog_usec en div 2)" by (rule order_trans [rotated])
    show "uint (sd_watchdog_usec en div 2) < 2 ^ 31" using assms(4) u by simp
  qed
  finally show ?thesis
    unfolding i u .
qed

section \<open>Properties of the monitor loop\<close>

lemma test_read_no_notify: "filter is_notify (events (test_read pe)) = []"
  by (simp add: test_read_def read_events_def filter_map comp_def Let_def
        split: prod.splits option.splits)

lemma loop_body_out:
  "out (loop_body pe s) =
     out s @ events (test_read pe)
     @ (if code (test_read pe) = 0 \<and> debug_mode s = 0 then [Sd_notify ''WATCHDOG=1''] else [])
     @ [Usleep (interval_us s)]"
  by (simp add: loop_body_def emit_def Let_def)

lemma loop_body_fields:
  "running (loop_body pe s) = running s" "debug_mode (loop_body pe s) = debug_mode s"
  by (simp_all add: loop_body_def emit_def Let_def)

lemma main_loop_debug:
  "debug_mode (snd (main_loop en fuel k s)) = debug_mode s"
  by (induction fuel arbitrary: k s) (simp_all add: Let_def loop_body_fields signal_handler_def)

lemma main_loop_no_notify:
  "debug_mode s \<noteq> 0 \<Longrightarrow>
   filter is_notify (out (snd (main_loop en fuel k s))) = filter is_notify (out s)"
proof (induction fuel arbitrary: k s)
  case 0
  then show ?case by simp
next
  case (Suc fuel)
  let ?s0 = "if signal_before en k then signal_handler s else s"
  have d0: "debug_mode ?s0 \<noteq> 0" and o0: "out ?s0 = out s"
    using Suc.prems by (simp_all add: signal_handler_def)
  show ?case
  proof (cases "running ?s0 \<noteq> 0")
    case True
    have "debug_mode (loop_body (probe_envs en k) ?s0) \<noteq> 0"
      using d0 by (simp add: loop_body_fields)
    from Suc.IH [OF this, of "Suc k"] True d0 o0
    show ?thesis
      by (simp add: Let_def loop_body_out test_read_no_notify)
  next
    case False
    then show ?thesis using o0 by (simp add: Let_def)
  qed
qed

lemma usage_only_no_notify:
  "list_all (\<lambda>ev. ev = Print_usage) evs \<Longrightarrow> filter is_notify evs = []"
  by (induction evs) auto

lemma main_debug_no_notify:
  assumes "debug_mode (snd (main fuel en argv)) \<noteq> 0"
  shows "filter is_notify (out (snd (main fuel en argv))) = []"
proof -
  obtain r s where pa: "parse_args en argv initial_state = (r, s)"
    by (cases "parse_args en argv initial_state")
  have quiet: "filter is_notify (out s) = []"
    using parse_args_usage_only [OF pa] by (rule usage_only_no_notify)
  show ?thesis
  proof (cases "\<exists>s'. main fuel en argv = (Some 0, s') \<or> main fuel en argv = (None, s')")
    case False
    then have "snd (main fuel en argv) = s"
      using pa by (auto simp: main_def split: parse_result.splits if_splits prod.splits bool.splits)
    with quiet show ?thesis by simp
  next
    case True
    let ?s1 = "if debug_mode s = 0 then emit (Sd_notify ''READY=1'') s else s"
    have run: "snd (main fuel en argv) = snd (main_loop en fuel 0 ?s1) \<or> snd (main fuel en argv) = s"
      using pa by (auto simp: main_def split: parse_result.splits if_splits prod.splits bool.splits)
    then show ?thesis
    proof
      assume "snd (main fuel en argv) = s"
      with quiet show ?thesis by simp
    next
      assume m: "snd (main fuel en argv) = snd (main_loop en fuel 0 ?s1)"
      have "debug_mode ?s1 = debug_mode s" by (simp add: emit_def)
      with assms m have d: "debug_mode s \<noteq> 0"
        by (simp add: main_loop_debug)
      then have s1: "?s1 = s" by simp
      show ?thesis
        unfolding m s1 using main_loop_no_notify [OF d] quiet by simp
    qed
  qed
qed

lemma loop_body_eq:
  "loop_body pe s =
     s\<lparr>out := out s @ events (test_read pe)
            @ (if code (test_read pe) = 0 \<and> debug_mode s = 0 then [Sd_notify ''WATCHDOG=1''] else [])
            @ [Usleep (interval_us s)]\<rparr>"
  by (simp add: loop_body_def emit_def Let_def)

lemma main_loop_steps:
  assumes "running s \<noteq> 0" and "\<forall>j<n. \<not> signal_before en (k + j)"
  shows "main_loop en (n + m) k s =
     main_loop en m (k + n)
       (s\<lparr>out := out s @ concat (map (\<lambda>j.
              events (test_read (probe_envs en (k + j)))
              @ (if code (test_read (probe_envs en (k + j))) = 0 \<and> debug_mode s = 0
                 then [Sd_notify ''WATCHDOG=1''] else [])
              @ [Usleep (interval_us s)]) [0..<n])\<rparr>)"
  using assms
proof (induction n arbitrary: k s)
  case 0
  then show ?case by simp
next
  case (Suc n)
  let ?s' = "loop_body (probe_envs en k) s"
  have nosig: "\<not> signal_before en k" using Suc.prems(2) by force
  have r': "running ?s' \<noteq> 0" using Suc.prems(1) by (simp add: loop_body_eq)
  have sig': "\<forall>j<n. \<not> signal_before en (Suc k + j)"
    using Suc.prems(2) by force
  have "main_loop en (Suc n + m) k s = main_loop en (n + m) (Suc k) ?s'"
    using nosig Suc.prems(1) by simp
  also note Suc.IH [OF r' sig']
  finally show ?case
    by (simp add: loop_body_eq map_upt_Suc del: upt_Suc)
qed

section \<open>The command line: claims\<close>

text \<open>
  Claim C2 at an input where it fails. Debug mode is off, \<^verbatim>\<open>sd_watchdog_enabled\<close> returns 1
  and reports a timeout of \<open>2^33\<close> microseconds. Half of it is \<open>4294967296\<close>, which the
  32-bit \<^verbatim>\<open>int interval_us\<close> cannot hold: the assignment keeps the low 32 bits and the
  interval after argument parsing is 0.
\<close>

theorem C2_interval_truncated:
  "fst (parse_args (watchdog_env 8589934592) [''--file'', ''/x'', ''--interval'', ''20''] initial_state) = Return 0
   \<and> debug_mode (snd (parse_args (watchdog_env 8589934592) [''--file'', ''/x'', ''--interval'', ''20''] initial_state)) = 0
   \<and> sint (interval_us (snd (parse_args (watchdog_env 8589934592) [''--file'', ''/x'', ''--interval'', ''20''] initial_state))) = 0
   \<and> uint (sd_watchdog_usec (watchdog_env 8589934592)) div 2 = 4294967296"
  by (simp add: parse_args_def watchdog_env_def plain_env_def initial_state_def
        getopt_long.simps lookup_long_def long_options_def optstring_def
        atoi_def strtol_def strtol_val_def isspace_def isdigit_def DEFAULT_INTERVAL_def)

text \<open>
  Claim C6, as amended. Let \<^verbatim>\<open>-i\<close>/\<^verbatim>\<open>--interval\<close> with argument \<open>arg\<close> be reached after options
  that were all accepted, and let \<open>v\<close> be the value \<^verbatim>\<open>atoi\<close> reads from \<open>arg\<close> (its leading
  decimal digits after optional white space and sign, 0 when there are none). Provided
  \<open>v * 1000\<close> fits a 32-bit \<^verbatim>\<open>int\<close>, that is \<open>-2147483 \<le> v \<le> 2147483\<close>: if \<open>v\<close> is positive the
  argument is accepted, the interval becomes \<open>v * 1000\<close> microseconds and parsing goes on;
  otherwise \<^verbatim>\<open>parse_args\<close> returns \<open>-1\<close> and the process exits with status 1. Nothing is
  said about arguments outside that range, positive or negative.
\<close>

theorem C6_interval_atoi:
  assumes "getopt_long [] argv = pre @ (CHR ''i'', arg) # rest"
    and "parse_opts (strdup_ok en) pre initial_state = (None, s1)"
    and "- 2147483648 \<le> strtol_val arg * 1000" and "strtol_val arg * 1000 \<le> 2147483647"
  shows "(0 < strtol_val arg \<longrightarrow>
            parse_opts (strdup_ok en) (getopt_long [] argv) initial_state
              = parse_opts (strdup_ok en) rest (s1\<lparr>interval_us := atoi arg * 1000\<rparr>)
            \<and> sint (atoi arg * 1000) = strtol_val arg * 1000)
       \<and> (strtol_val arg \<le> 0 \<longrightarrow>
            fst (parse_args en argv initial_state) = Return (- 1)
            \<and> fst (main fuel en argv) = Some 1)"
proof -
  note prod = sint_interval_product [OF assms(3,4)]
  have step: "parse_opts (strdup_ok en) (getopt_long [] argv) initial_state
      = parse_opts (strdup_ok en) ((CHR ''i'', arg) # rest) s1"
    unfolding assms(1) by (rule parse_opts_append [OF assms(2)])
  have pos: "parse_opts (strdup_ok en) (getopt_long [] argv) initial_state
              = parse_opts (strdup_ok en) rest (s1\<lparr>interval_us := atoi arg * 1000\<rparr>)"
    if "0 < strtol_val arg"
    using that prod step by simp
  have neg: "parse_opts (strdup_ok en) (getopt_long [] argv) initial_state
              = (Some (Return (- 1)), s1\<lparr>interval_us := atoi arg * 1000\<rparr>)"
    if "strtol_val arg \<le> 0"
    using that prod step by simp
  have "fst (parse_args en argv initial_state) = Return (- 1) \<and> fst (main fuel en argv) = Some 1"
    if "strtol_val arg \<le> 0"
    using neg [OF that] by (simp add: parse_args_def main_def)
  with pos prod show ?thesis by blast
qed

theorem C6_interval_atoi_witness:
  "getopt_long [] [''-f'', ''/x'', ''-i'', ''250''] = [(CHR ''f'', ''/x'')] @ (CHR ''i'', ''250'') # []
   \<and> strtol_val ''250'' = 250
   \<and> parse_opts (strdup_ok plain_env) (getopt_long [] [''-f'', ''/x'', ''-i'', ''250'']) initial_state
       = (None, initial_state\<lparr>test_file := Some ''/x'', interval_us := 250000\<rparr>)
   \<and> sint (atoi ''250'' * 1000) = 250000
   \<and> getopt_long [] [''-f'', ''/x'', ''--interval=-3''] = [(CHR ''f'', ''/x'')] @ (CHR ''i'', ''-3'') # []
   \<and> strtol_val ''-3'' = - 3
   \<and> fst (parse_args plain_env [''-f'', ''/x'', ''--interval=-3''] initial_state) = Return (- 1)
   \<and> fst (main 4 plain_env [''-f'', ''/x'', ''--interval=-3'']) = Some 1"
  using C6_interval_atoi [of "[''-f'', ''/x'', ''-i'', ''250'']" "[(CHR ''f'', ''/x'')]" "''250''" "[]"
      plain_env "initial_state\<lparr>test_file := Some ''/x''\<rparr>" 0]
    C6_interval_atoi [of "[''-f'', ''/x'', ''--interval=-3'']" "[(CHR ''f'', ''/x'')]" "''-3''" "[]"
      plain_env "initial_state\<lparr>test_file := Some ''/x''\<rparr>" 4]
  by (simp add: plain_env_def getopt_long.simps optstring_def lookup_long_def long_options_def
        atoi_def strtol_def strtol_val_def isspace_def isdigit_def)

text \<open>
  Claim C6 as stated fails at \<^verbatim>\<open>-i 5abc\<close>: the argument is not numeric, and it is accepted
  as 5 milliseconds.
\<close>

theorem C6_counterexample:
  "\<not> list_all isdigit ''5abc''
   \<and> fst (parse_args plain_env [''-f'', ''/x'', ''-i'', ''5abc''] initial_state) = Return 0
   \<and> sint (interval_us (snd (parse_args plain_env [''-f'', ''/x'', ''-i'', ''5abc''] initial_state))) = 5000"
  by (simp add: parse_args_def plain_env_def initial_state_def getopt_long.simps optstring_def
        atoi_def strtol_def strtol_val_def isspace_def isdigit_def)

text \<open>
  Claim C9, as amended. Let \<^verbatim>\<open>getopt_long\<close> return \<^verbatim>\<open>'h'\<close> after the options \<open>pre\<close>. When all
  of \<open>pre\<close> were accepted, the program prints the usage text and exits with status 0 at
  once: whatever follows on the command line is not looked at, and the check that a file
  was given is not made. When the parser returned \<open>-1\<close> at an option of \<open>pre\<close>, the process
  exits with status 1 in the state reached there, and the flag is never looked at.
\<close>

theorem C9_help_after_accepted_options:
  assumes "getopt_long [] argv = pre @ (CHR ''h'', a) # rest"
  shows "(parse_opts (strdup_ok en) pre initial_state = (None, s1)
            \<longrightarrow> main fuel en argv = (Some 0, emit Print_usage s1))
       \<and> (parse_opts (strdup_ok en) pre initial_state = (Some (Return (- 1)), s1)
            \<longrightarrow> main fuel en argv = (Some 1, s1))"
proof (intro conjI impI)
  assume pre: "parse_opts (strdup_ok en) pre initial_state = (None, s1)"
  have "parse_opts (strdup_ok en) (getopt_long [] argv) initial_state
      = parse_opts (strdup_ok en) ((CHR ''h'', a) # rest) s1"
    unfolding assms(1) by (rule parse_opts_append [OF pre])
  then show "main fuel en argv = (Some 0, emit Print_usage s1)"
    by (simp add: parse_args_def main_def)
next
  assume pre: "parse_opts (strdup_ok en) pre initial_state = (Some (Return (- 1)), s1)"
  have "parse_opts (strdup_ok en) (getopt_long [] argv) initial_state = (Some (Return (- 1)), s1)"
    unfolding assms(1) by (rule parse_opts_append_stop [OF pre])
  then show "main fuel en argv = (Some 1, s1)"
    by (simp add: parse_args_def main_def)
qed

theorem C9_help_after_accepted_options_witness:
  "getopt_long [] [''-v'', ''--help'', ''-i'', ''0''] = [(CHR ''v'', [])] @ (CHR ''h'', []) # [(CHR ''i'', ''0'')]
   \<and> parse_opts (strdup_ok plain_env) [(CHR ''v'', [])] initial_state = (None, initial_state\<lparr>verbose_mode := 1\<rparr>)
   \<and> main 5 plain_env [''-v'', ''--help'', ''-i'', ''0''] = (Some 0, emit Print_usage (initial_state\<lparr>verbose_mode := 1\<rparr>))
   \<and> getopt_long [] [''-x'', ''-h''] = [(CHR ''?'', [])] @ (CHR ''h'', []) # []
   \<and> parse_opts (strdup_ok plain_env) [(CHR ''?'', [])] initial_state
       = (Some (Return (- 1)), emit Print_usage initial_state)
   \<and> main 5 plain_env [''-x'', ''-h''] = (Some 1, emit Print_usage initial_state)"
  using C9_help_after_accepted_options [of "[''-v'', ''--help'', ''-i'', ''0'']" "[(CHR ''v'', [])]" "[]"
      "[(CHR ''i'', ''0'')]" plain_env "initial_state\<lparr>verbose_mode := 1\<rparr>" 5]
    C9_help_after_accepted_options [of "[''-x'', ''-h'']" "[(CHR ''?'', [])]" "[]" "[]"
      plain_env "emit Print_usage initial_state" 5]
  by (simp add: plain_env_def getopt_long.simps optstring_def lookup_long_def long_options_def)

text \<open>
  Claim C9 as stated fails at \<^verbatim>\<open>-f /x -i 0 -h\<close>: the list contains \<^verbatim>\<open>-h\<close>, but the invalid
  interval is met first, \<^verbatim>\<open>parse_args\<close> returns \<open>-1\<close> and the process exits with status 1
  without printing the usage text.
\<close>

theorem C9_counterexample:
  "List.member [''-f'', ''/x'', ''-i'', ''0'', ''-h''] ''-h''
   \<and> getopt_long [] [''-f'', ''/x'', ''-i'', ''0'', ''-h''] = [(CHR ''f'', ''/x''), (CHR ''i'', ''0''), (CHR ''h'', [])]
   \<and> main 5 plain_env [''-f'', ''/x'', ''-i'', ''0'', ''-h'']
       = (Some 1, initial_state\<lparr>test_file := Some ''/x'', interval_us := 0\<rparr>)"
  by (simp add: main_def parse_args_def plain_env_def initial_state_def getopt_long.simps optstring_def
        atoi_def strtol_def strtol_val_def isspace_def isdigit_def)

section \<open>Precondition check and monitor loop: claims\<close>

text \<open>
  Claim C7. Whenever \<^verbatim>\<open>parse_args\<close> has returned with target path \<open>p\<close>, and \<open>p\<close> cannot be
  stat'ed, is not a regular file or is empty, \<^verbatim>\<open>check_test_file\<close> returns \<open>-1\<close>, the
  process exits with status 1 in the state that parsing left, and the trace holds
  nothing but usage text: no probe, no notification, no loop iteration.
\<close>

theorem C7_precondition_failure_exits:
  assumes "parse_args en argv initial_state = (Return r, s)" and "test_file s = Some p"
    and "stat_ret en p = None
         \<or> (\<exists>sb. stat_ret en p = Some sb \<and> (\<not> s_isreg sb \<or> st_size sb = 0))"
  shows "check_test_file (stat_ret en) p = - 1
       \<and> main fuel en argv = (Some 1, s)
       \<and> list_all (\<lambda>ev. ev = Print_usage) (out s)"
proof -
  have chk: "check_test_file (stat_ret en) p = - 1"
    using assms(3) by (auto simp: check_test_file_def)
  have "main fuel en argv = (Some 1, s)"
    using assms(1,2) chk by (simp add: main_def)
  moreover have "list_all (\<lambda>ev. ev = Print_usage) (out s)"
    using assms(1) by (rule parse_args_usage_only)
  ultimately show ?thesis using chk by simp
qed

theorem C7_precondition_failure_exits_witness:
  "parse_args plain_env [''-f'', ''/nonexistent''] initial_state
     = (Return 0, initial_state\<lparr>test_file := Some ''/nonexistent''\<rparr>)
   \<and> stat_ret plain_env ''/nonexistent'' = None
   \<and> main 7 plain_env [''-f'', ''/nonexistent'']
       = (Some 1, initial_state\<lparr>test_file := Some ''/nonexistent''\<rparr>)
   \<and> stat_ret plain_env ''/dir'' = Some \<lparr>s_isreg = False, st_size = 4096\<rparr>
   \<and> main 7 plain_env [''--file'', ''/dir''] = (Some 1, initial_state\<lparr>test_file := Some ''/dir''\<rparr>)
   \<and> stat_ret plain_env ''/empty'' = Some \<lparr>s_isreg = True, st_size = 0\<rparr>
   \<and> main 7 plain_env [''-f/empty''] = (Some 1, initial_state\<lparr>test_file := Some ''/empty''\<rparr>)
   \<and> out initial_state = []"
  using C7_precondition_failure_exits [of plain_env "[''-f'', ''/nonexistent'']" 0
      "initial_state\<lparr>test_file := Some ''/nonexistent''\<rparr>" "''/nonexistent''" 7]
    C7_precondition_failure_exits [of plain_env "[''--file'', ''/dir'']" 0
      "initial_state\<lparr>test_file := Some ''/dir''\<rparr>" "''/dir''" 7]
    C7_precondition_failure_exits [of plain_env "[''-f/empty'']" 0
      "initial_state\<lparr>test_file := Some ''/empty''\<rparr>" "''/empty''" 7]
  by (simp add: parse_args_def plain_env_def initial_state_def getopt_long.simps optstring_def
        lookup_long_def long_options_def)

text \<open>
  Claim C1. Take a run in which parsing and the precondition check succeeded and no
  termination signal arrived before the first \<open>n\<close> evaluations of the loop condition.
  After \<open>n\<close> iterations the loop is still running, however many probes failed, and the
  trace is \<^verbatim>\<open>READY=1\<close> (unless debug mode is on) followed, for each iteration in turn, by
  the events of its probe, one \<^verbatim>\<open>WATCHDOG=1\<close> exactly when that probe returned 0 and debug
  mode is off, and the sleep. Only a signal ends the loop, with exit status 0. A run in
  debug mode has no notification in its trace, whatever the arguments, the signals and
  the number of iterations. The body of the loop, at any state, sends one heartbeat
  exactly on success outside debug mode and leaves the \<^verbatim>\<open>running\<close> flag alone.
\<close>

theorem C1_heartbeat_iff_success:
  assumes "parse_args en argv initial_state = (Return 0, s)" and "test_file s = Some p"
    and "check_test_file (stat_ret en) p = 0"
    and "\<forall>j<n. \<not> signal_before en j"
  shows "fst (main n en argv) = None
       \<and> running (snd (main n en argv)) = 1
       \<and> out (snd (main n en argv)) =
           (if debug_mode s = 0 then [Sd_notify ''READY=1''] else [])
           @ concat (map (\<lambda>j.
               events (test_read (probe_envs en j))
               @ (if code (test_read (probe_envs en j)) = 0 \<and> debug_mode s = 0
                  then [Sd_notify ''WATCHDOG=1''] else [])
               @ [Usleep (interval_us s)]) [0..<n])
       \<and> filter is_notify (out (snd (main n en argv))) =
           (if debug_mode s = 0 then [Sd_notify ''READY=1''] else [])
           @ concat (map (\<lambda>j.
               if code (test_read (probe_envs en j)) = 0 \<and> debug_mode s = 0
               then [Sd_notify ''WATCHDOG=1''] else []) [0..<n])
       \<and> (signal_before en n \<longrightarrow>
            main (n + Suc m) en argv = (Some 0, (snd (main n en argv))\<lparr>running := 0\<rparr>))
       \<and> (debug_mode (snd (main fuel en argv)) \<noteq> 0 \<longrightarrow>
            filter is_notify (out (snd (main fuel en argv))) = [])
       \<and> filter is_notify (drop (length (out t)) (out (loop_body pe t)))
           = (if code (test_read pe) = 0 \<and> debug_mode t = 0 then [Sd_notify ''WATCHDOG=1''] else [])
       \<and> running (loop_body pe t) = running t"
proof -
  let ?s1 = "if debug_mode s = 0 then emit (Sd_notify ''READY=1'') s else s"
  let ?it = "\<lambda>j. events (test_read (probe_envs en j))
               @ (if code (test_read (probe_envs en j)) = 0 \<and> debug_mode s = 0
                  then [Sd_notify ''WATCHDOG=1''] else [])
               @ [Usleep (interval_us s)]"
  let ?sn = "?s1\<lparr>out := out ?s1 @ concat (map ?it [0..<n])\<rparr>"
  note p0 = parse_args_Return_0 [OF assms(1)]
  have r1: "running ?s1 \<noteq> 0" using p0 by (simp add: emit_def)
  have sig: "\<forall>j<n. \<not> signal_before en (0 + j)" using assms(4) by simp
  have steps: "main_loop en (n + k) 0 ?s1 = main_loop en k n ?sn" for k
    using main_loop_steps [OF r1 sig, of k] by (simp add: emit_def)
  have mainn: "main n en argv = (None, ?sn)"
    using assms(1,2,3) steps [of 0] by (simp add: main_def)
  have o: "out ?sn = (if debug_mode s = 0 then [Sd_notify ''READY=1''] else []) @ concat (map ?it [0..<n])"
    using p0 by (simp add: emit_def)
  have c1: "fst (main n en argv) = None" using mainn by simp
  have c2: "running (snd (main n en argv)) = 1" using mainn p0 by (simp add: emit_def)
  have c3: "out (snd (main n en argv)) =
      (if debug_mode s = 0 then [Sd_notify ''READY=1''] else []) @ concat (map ?it [0..<n])"
    using mainn o by simp
  have fc: "filter is_notify (concat (map ?it [0..<n]))
      = concat (map (\<lambda>j. if code (test_read (probe_envs en j)) = 0 \<and> debug_mode s = 0
               then [Sd_notify ''WATCHDOG=1''] else []) [0..<n])"
    by (simp add: filter_concat comp_def test_read_no_notify cong: if_cong)
  have c4: "filter is_notify (out (snd (main n en argv))) =
      (if debug_mode s = 0 then [Sd_notify ''READY=1''] else [])
      @ concat (map (\<lambda>j. if code (test_read (probe_envs en j)) = 0 \<and> debug_mode s = 0
               then [Sd_notify ''WATCHDOG=1''] else []) [0..<n])"
    unfolding c3 using fc by simp
  have c5: "main (n + Suc m) en argv = (Some 0, (snd (main n en argv))\<lparr>running := 0\<rparr>)"
    if "signal_before en n"
    using assms(1,2,3) steps [of "Suc m"] that mainn
    by (simp add: main_def signal_handler_def)
  have c6: "debug_mode (snd (main fuel en argv)) \<noteq> 0 \<longrightarrow>
            filter is_notify (out (snd (main fuel en argv))) = []"
    using main_debug_no_notify [of fuel en argv] by blast
  have c7: "filter is_notify (drop (length (out t)) (out (loop_body pe t)))
           = (if code (test_read pe) = 0 \<and> debug_mode t = 0 then [Sd_notify ''WATCHDOG=1''] else [])"
    by (simp add: loop_body_out test_read_no_notify)
  have c8: "running (loop_body pe t) = running t"
    by (rule loop_body_fields(1))
  from c1 c2 c3 c4 c5 c6 c7 c8 show ?thesis by blast
qed

theorem C1_heartbeat_iff_success_witness:
  "parse_args flaky_env [''-f'', ''/x''] initial_state = (Return 0, initial_state\<lparr>test_file := Some ''/x''\<rparr>)
   \<and> code (test_read (probe_envs flaky_env 0)) = 0
   \<and> code (test_read (probe_envs flaky_env 1)) = 7
   \<and> code (test_read (probe_envs flaky_env 2)) = 0
   \<and> fst (main 3 flaky_env [''-f'', ''/x'']) = None
   \<and> filter is_notify (out (snd (main 3 flaky_env [''-f'', ''/x''])))
       = [Sd_notify ''READY=1'', Sd_notify ''WATCHDOG=1'', Sd_notify ''WATCHDOG=1'']
   \<and> signal_before flaky_env 3
   \<and> fst (main (3 + Suc 0) flaky_env [''-f'', ''/x'']) = Some 0
   \<and> debug_mode (snd (main 3 flaky_env [''-d'', ''-f'', ''/x''])) = 1
   \<and> filter is_notify (out (snd (main 3 flaky_env [''-d'', ''-f'', ''/x'']))) = []"
proof -
  let ?S = "initial_state\<lparr>test_file := Some ''/x''\<rparr>"
  let ?D = "initial_state\<lparr>debug_mode := 1, verbose_mode := 1, test_file := Some ''/x''\<rparr>"
  have pa: "parse_args flaky_env [''-f'', ''/x''] initial_state = (Return 0, ?S)"
    by (simp add: parse_args_def flaky_env_def plain_env_def initial_state_def getopt_long.simps
          optstring_def)
  have pd: "parse_args flaky_env [''-d'', ''-f'', ''/x''] initial_state = (Return 0, ?D)"
    by (simp add: parse_args_def flaky_env_def plain_env_def initial_state_def getopt_long.simps
          optstring_def)
  have tf: "test_file ?S = Some ''/x''" "test_file ?D = Some ''/x''"
    by simp_all
  have ck: "check_test_file (stat_ret flaky_env) ''/x'' = 0"
    by (simp add: check_test_file_def flaky_env_def plain_env_def)
  have ns: "\<forall>j<3. \<not> signal_before flaky_env j"
    by (simp add: flaky_env_def)
  have sg: "signal_before flaky_env 3"
    by (simp add: flaky_env_def)
  have c0: "code (test_read (probe_envs flaky_env 0)) = 0"
    and c1: "code (test_read (probe_envs flaky_env 1)) = 7"
    and c2: "code (test_read (probe_envs flaky_env 2)) = 0"
    by (simp_all add: flaky_env_def close_fails_probe_def healthy_probe_def full_blocks_def
          test_read_def aligned_size_def BUFFER_SIZE_def read_loop.simps)
  have c1': "code (test_read (probe_envs flaky_env (Suc 0))) = 7"
    using c1 by simp
  have dS: "debug_mode ?S = 0" and dD: "debug_mode ?D = 1"
    by (simp_all add: initial_state_def)
  have l: "[0..<3] = [0, 1, 2::nat]"
    by (simp add: upt_rec)
  note run = C1_heartbeat_iff_success [OF pa tf(1) ck ns, where m = 0 and fuel = 3]
  note dbg = C1_heartbeat_iff_success [OF pd tf(2) ck ns, where m = 0 and fuel = 3]
  have r1: "fst (main 3 flaky_env [''-f'', ''/x'']) = None"
    using run by blast
  have "filter is_notify (out (snd (main 3 flaky_env [''-f'', ''/x'']))) =
      (if debug_mode ?S = 0 then [Sd_notify ''READY=1''] else [])
      @ concat (map (\<lambda>j. if code (test_read (probe_envs flaky_env j)) = 0 \<and> debug_mode ?S = 0
                          then [Sd_notify ''WATCHDOG=1''] else []) [0..<3])"
    using run by blast
  then have r2: "filter is_notify (out (snd (main 3 flaky_env [''-f'', ''/x''])))
       = [Sd_notify ''READY=1'', Sd_notify ''WATCHDOG=1'', Sd_notify ''WATCHDOG=1'']"
    unfolding l by (simp add: c0 c1' c2 dS)
  have "main (3 + Suc 0) flaky_env [''-f'', ''/x'']
      = (Some 0, (snd (main 3 flaky_env [''-f'', ''/x'']))\<lparr>running := 0\<rparr>)"
    using run sg by blast
  then have r3: "fst (main (3 + Suc 0) flaky_env [''-f'', ''/x'']) = Some 0"
    by simp
  have "out (snd (main 3 flaky_env [''-d'', ''-f'', ''/x''])) =
      (if debug_mode ?D = 0 then [Sd_notify ''READY=1''] else [])
      @ concat (map (\<lambda>j. events (test_read (probe_envs flaky_env j))
           @ (if code (test_read (probe_envs flaky_env j)) = 0 \<and> debug_mode ?D = 0
              then [Sd_notify ''WATCHDOG=1''] else [])
           @ [Usleep (interval_us ?D)]) [0..<3])"
    using dbg by blast
  have "filter is_notify (out (snd (main 3 flaky_env [''-d'', ''-f'', ''/x'']))) =
      (if debug_mode ?D = 0 then [Sd_notify ''READY=1''] else [])
      @ concat (map (\<lambda>j. if code (test_read (probe_envs flaky_env j)) = 0 \<and> debug_mode ?D = 0
                          then [Sd_notify ''WATCHDOG=1''] else []) [0..<3])"
    using dbg by blast
  then have r5: "filter is_notify (out (snd (main 3 flaky_env [''-d'', ''-f'', ''/x'']))) = []"
    by (simp add: dD)
  have ml: "main 3 flaky_env [''-d'', ''-f'', ''/x'']
      = (case main_loop flaky_env 3 0 ?D of (True, s') \<Rightarrow> (Some 0, s') | (False, s') \<Rightarrow> (None, s'))"
    using pd ck by (simp add: main_def dD)
  have r4: "debug_mode (snd (main 3 flaky_env [''-d'', ''-f'', ''/x''])) = 1"
    unfolding ml using main_loop_debug [of flaky_env 3 0 ?D] dD
    by (cases "main_loop flaky_env 3 0 ?D") (auto split: bool.splits)
  from pa c0 c1 c2 r1 r2 sg r3 r4 r5 show ?thesis by blast
qed

end
